theory Spec2Isabelle
  imports Main "HOL-Library.AList" "HOL-Library.Char_ord" "HOL-Library.List_Lexorder"
begin

section \<open>The asset pipeline of process\_assets.py\<close>

text \<open>
  The development embeds \<^verbatim>\<open>src/process_assets.py\<close>: the worker
  \<^verbatim>\<open>convert_and_resize\<close>, the renumbering step
  \<^verbatim>\<open>standardize_names_and_fill_gaps\<close> with \<^verbatim>\<open>perform_rename_set\<close>, and the
  coordinator \<^verbatim>\<open>process_directory\<close>.

  What the operating system and the imaging library do is made explicit in a \<open>world\<close>:
  \<^item> one asset root with its two child directories; a path is a directory and a base name,
    compared as the strings they are (a case-sensitive file system, as \<^verbatim>\<open>!=\<close> on the
    joined paths is in the source);
  \<^item> a file has a modification time and, when it decodes as an image, its size;
  \<^item> a clock stamps every written file and then advances;
  \<^item> \<open>denied\<close> says for which paths the system refuses a write or a rename;
  \<^item> a log records every call of \<^verbatim>\<open>Image.open\<close>, \<^verbatim>\<open>save\<close>, \<^verbatim>\<open>os.rename\<close> and
    \<^verbatim>\<open>json.dump\<close>, the last one with the document that is written.
  File names are byte strings; \<^verbatim>\<open>str.isdigit\<close> and \<^verbatim>\<open>str.lower\<close> are modelled on ASCII.
\<close>

subsection \<open>Strings\<close>

definition TARGET_EXT :: string where
  "TARGET_EXT = ''.webp''"

definition endswith :: "string \<Rightarrow> string \<Rightarrow> bool" where
  "endswith s e = (length e \<le> length s \<and> drop (length s - length e) s = e)"

definition lower_char :: "char \<Rightarrow> char" where
  "lower_char c = (if CHR ''A'' \<le> c \<and> c \<le> CHR ''Z'' then char_of (of_char c + (32::nat)) else c)"

definition upper_char :: "char \<Rightarrow> char" where
  "upper_char c = (if CHR ''a'' \<le> c \<and> c \<le> CHR ''z'' then char_of (of_char c - (32::nat)) else c)"

definition lower :: "string \<Rightarrow> string" where
  "lower s = map lower_char s"

definition upper :: "string \<Rightarrow> string" where
  "upper s = map upper_char s"

text \<open>
  \<^verbatim>\<open>os.path.splitext\<close> on a base name: the extension starts at the last dot, unless
  only dots come before it (then there is no extension).
\<close>

definition splitext :: "string \<Rightarrow> string \<times> string" where
  "splitext p =
     (if CHR ''.'' \<notin> set p then (p, [])
      else let suf = rev (takeWhile (\<lambda>c. c \<noteq> CHR ''.'') (rev p));
               root = take (length p - length suf - 1) p
           in if list_all (\<lambda>c. c = CHR ''.'') root then (p, [])
              else (root, CHR ''.'' # suf))"

definition is_digit :: "char \<Rightarrow> bool" where
  "is_digit c = (CHR ''0'' \<le> c \<and> c \<le> CHR ''9'')"

definition isdigit :: "string \<Rightarrow> bool" where
  "isdigit s = (s \<noteq> [] \<and> list_all is_digit s)"

text \<open>\<^verbatim>\<open>int(name)\<close> on a string of digits, and \<^verbatim>\<open>f"{n}"\<close> on a natural number.\<close>

definition int_of_str :: "string \<Rightarrow> nat" where
  "int_of_str s = foldl (\<lambda>a c. 10 * a + (of_char c - 48)) 0 s"

fun str :: "nat \<Rightarrow> string" where
  "str n = (if n < 10 then [char_of (48 + n)] else str (n div 10) @ [char_of (48 + n mod 10)])"

declare str.simps [simp del]

definition final_name_of :: "string \<Rightarrow> string" where
  "final_name_of filename = fst (splitext filename) @ ''.webp''"

subsection \<open>Files, directories and the world\<close>

datatype dir = Root | HalfRes | QuarterRes

type_synonym path = "dir \<times> string"

record entry =
  mtime :: nat
  image :: "(nat \<times> nat) option"

text \<open>
  The two documents that \<^verbatim>\<open>update_config_and_manifest\<close> writes: the configuration with
  \<^verbatim>\<open>totalImages\<close> and \<^verbatim>\<open>lastUpdated\<close> (the list \<^verbatim>\<open>formats\<close> is a constant), and the manifest.
\<close>

datatype document = ConfigData nat nat | ManifestData "(string \<times> string) list"

datatype event = Open path | Save path | Rename path path | Dump path document

datatype error = FileNotFoundError path | UnidentifiedImageError path | OSError path

record world =
  tree :: "dir \<Rightarrow> (string \<times> entry) list"
  clock :: nat
  denied :: "path \<Rightarrow> bool"
  log :: "event list"

text \<open>The dictionary \<^verbatim>\<open>paths\<close> that \<^verbatim>\<open>ensure_dirs\<close> returns.\<close>

record paths =
  full :: dir
  half :: dir
  quarter :: dir

definition ensure_dirs_paths :: paths where
  "ensure_dirs_paths = \<lparr>full = Root, half = HalfRes, quarter = QuarterRes\<rparr>"

definition lookup :: "world \<Rightarrow> path \<Rightarrow> entry option" where
  "lookup w p = map_of (tree w (fst p)) (snd p)"

definition path_exists :: "world \<Rightarrow> path \<Rightarrow> bool" where
  "path_exists w p = (lookup w p \<noteq> None)"

definition listdir :: "world \<Rightarrow> dir \<Rightarrow> string list" where
  "listdir w d = map fst (tree w d)"

definition getmtime :: "world \<Rightarrow> path \<Rightarrow> error + nat" where
  "getmtime w p = (case lookup w p of None \<Rightarrow> Inl (FileNotFoundError p) | Some f \<Rightarrow> Inr (mtime f))"

definition put_file :: "path \<Rightarrow> entry \<Rightarrow> world \<Rightarrow> world" where
  "put_file p f w = w\<lparr>tree := (tree w)(fst p := AList.update (snd p) f (tree w (fst p)))\<rparr>"

definition drop_file :: "path \<Rightarrow> world \<Rightarrow> world" where
  "drop_file p w = w\<lparr>tree := (tree w)(fst p := AList.delete (snd p) (tree w (fst p)))\<rparr>"

definition log_event :: "event \<Rightarrow> world \<Rightarrow> world" where
  "log_event e w = w\<lparr>log := log w @ [e]\<rparr>"

text \<open>\<^verbatim>\<open>Image.open\<close>: fails on a missing file and on one that is no image.\<close>

definition image_open :: "path \<Rightarrow> world \<Rightarrow> (error + nat \<times> nat) \<times> world" where
  "image_open p w =
     (case lookup w p of
        None \<Rightarrow> (Inl (FileNotFoundError p), log_event (Open p) w)
      | Some f \<Rightarrow>
          (case image f of
             None \<Rightarrow> (Inl (UnidentifiedImageError p), log_event (Open p) w)
           | Some sz \<Rightarrow> (Inr sz, log_event (Open p) w)))"

text \<open>\<^verbatim>\<open>img.save\<close>: the file is created or replaced, stamped with the clock.\<close>

definition image_save :: "path \<Rightarrow> nat \<times> nat \<Rightarrow> world \<Rightarrow> (error + unit) \<times> world" where
  "image_save p sz w =
     (if denied w p then (Inl (OSError p), log_event (Save p) w)
      else (Inr (),
            (put_file p \<lparr>mtime = clock w, image = Some sz\<rparr> (log_event (Save p) w))
              \<lparr>clock := clock w + 1\<rparr>))"

text \<open>\<^verbatim>\<open>os.rename\<close> (POSIX): an existing destination is replaced, the file keeps its time.\<close>

definition os_rename :: "path \<Rightarrow> path \<Rightarrow> world \<Rightarrow> (error + unit) \<times> world" where
  "os_rename s t w =
     (case lookup w s of
        None \<Rightarrow> (Inl (FileNotFoundError s), log_event (Rename s t) w)
      | Some f \<Rightarrow>
          if denied w s \<or> denied w t then (Inl (OSError s), log_event (Rename s t) w)
          else if s = t then (Inr (), log_event (Rename s t) w)
          else (Inr (), put_file t f (drop_file s (log_event (Rename s t) w))))"

text \<open>
  \<^verbatim>\<open>with open(path, 'w') as f: json.dump(data, f)\<close>: the file is created or replaced by one
  that is no image, stamped with the clock.
\<close>

definition json_dump :: "path \<Rightarrow> document \<Rightarrow> world \<Rightarrow> (error + unit) \<times> world" where
  "json_dump p data w =
     (if denied w p then (Inl (OSError p), log_event (Dump p data) w)
      else (Inr (),
            (put_file p \<lparr>mtime = clock w, image = None\<rparr> (log_event (Dump p data) w))
              \<lparr>clock := clock w + 1\<rparr>))"

subsection \<open>convert\_and\_resize\<close>

text \<open>The pair \<^verbatim>\<open>(max(1, w // 2), max(1, h // 2))\<close> of steps 2 and 3.\<close>

definition halve :: "nat \<times> nat \<Rightarrow> nat \<times> nat" where
  "halve sz = (max 1 (fst sz div 2), max 1 (snd sz div 2))"

text \<open>
  Lines 62--78: the modification times, \<^verbatim>\<open>needs_process\<close>, and step 1. The value is
  \<open>Inl\<close> where the source raises.
\<close>

definition needs_process_of :: "world \<Rightarrow> path \<Rightarrow> path \<Rightarrow> error + bool" where
  "needs_process_of w src_full_path full_res_target =
     (case getmtime w src_full_path of
        Inl e \<Rightarrow> Inl e
      | Inr src_mtime \<Rightarrow>
          if path_exists w full_res_target then
            (case getmtime w full_res_target of
               Inl e \<Rightarrow> Inl e
             | Inr dst_mtime \<Rightarrow> if src_mtime \<le> dst_mtime then Inr False else Inr True)
          else Inr True)"

definition step1_full :: "path \<Rightarrow> path \<Rightarrow> world \<Rightarrow> (error + unit) \<times> world" where
  "step1_full src_full_path full_res_target w =
     (case needs_process_of w src_full_path full_res_target of
        Inl e \<Rightarrow> (Inl e, w)
      | Inr needs_process \<Rightarrow>
          if needs_process \<or> src_full_path \<noteq> full_res_target then
            (case image_open src_full_path w of
               (Inl e, w1) \<Rightarrow> (Inl e, w1)
             | (Inr img_src, w1) \<Rightarrow>
                 if src_full_path \<noteq> full_res_target then image_save full_res_target img_src w1
                 else (Inr (), w1))
          else (Inr (), w))"

text \<open>Lines 81--90: step 2.\<close>

definition half_needs_update_of :: "world \<Rightarrow> path \<Rightarrow> path \<Rightarrow> error + bool" where
  "half_needs_update_of w full_res_target half_res_target =
     (if path_exists w half_res_target then
        (case getmtime w full_res_target of
           Inl e \<Rightarrow> Inl e
         | Inr mf \<Rightarrow>
             (case getmtime w half_res_target of
                Inl e \<Rightarrow> Inl e
              | Inr mh \<Rightarrow> if mf \<le> mh then Inr False else Inr True))
      else Inr True)"

definition step2_half :: "path \<Rightarrow> path \<Rightarrow> world \<Rightarrow> (error + unit) \<times> world" where
  "step2_half full_res_target half_res_target w =
     (case half_needs_update_of w full_res_target half_res_target of
        Inl e \<Rightarrow> (Inl e, w)
      | Inr half_needs_update \<Rightarrow>
          if half_needs_update then
            (case image_open full_res_target w of
               (Inl e, w1) \<Rightarrow> (Inl e, w1)
             | (Inr sz, w1) \<Rightarrow> image_save half_res_target (halve sz) w1)
          else (Inr (), w))"

text \<open>Lines 93--104: step 3, which reads the half tier.\<close>

definition quat_needs_update_of :: "world \<Rightarrow> path \<Rightarrow> path \<Rightarrow> error + bool" where
  "quat_needs_update_of w half_res_target quat_res_target =
     (if path_exists w quat_res_target then
        (case getmtime w half_res_target of
           Inl e \<Rightarrow> Inl e
         | Inr mh \<Rightarrow>
             (case getmtime w quat_res_target of
                Inl e \<Rightarrow> Inl e
              | Inr mq \<Rightarrow> if mh \<le> mq then Inr False else Inr True))
      else Inr True)"

definition step3_quarter :: "path \<Rightarrow> path \<Rightarrow> world \<Rightarrow> (error + unit) \<times> world" where
  "step3_quarter half_res_target quat_res_target w =
     (case quat_needs_update_of w half_res_target quat_res_target of
        Inl e \<Rightarrow> (Inl e, w)
      | Inr quat_needs_update \<Rightarrow>
          if quat_needs_update then
            (if path_exists w half_res_target then
               (case image_open half_res_target w of
                  (Inl e, w1) \<Rightarrow> (Inl e, w1)
                | (Inr sz, w1) \<Rightarrow> image_save quat_res_target (halve sz) w1)
             else (Inr (), w))
          else (Inr (), w))"

text \<open>The body of the \<^verbatim>\<open>try\<close> after the dry-run test: the three steps in order.\<close>

definition convert_body :: "path \<Rightarrow> path \<Rightarrow> path \<Rightarrow> path \<Rightarrow> world \<Rightarrow> (error + unit) \<times> world" where
  "convert_body src_full_path full_res_target half_res_target quat_res_target w =
     (case step1_full src_full_path full_res_target w of
        (Inl e, w1) \<Rightarrow> (Inl e, w1)
      | (Inr u, w1) \<Rightarrow>
          (case step2_half full_res_target half_res_target w1 of
             (Inl e, w2) \<Rightarrow> (Inl e, w2)
           | (Inr u, w2) \<Rightarrow> step3_quarter half_res_target quat_res_target w2))"

type_synonym task_info = "path \<times> string \<times> paths \<times> bool"

text \<open>
  The worker: \<open>None\<close> is Python's \<^verbatim>\<open>None\<close> (the \<^verbatim>\<open>except Exception\<close> branch), \<open>Some\<close> the
  pair \<^verbatim>\<open>(final_name, filename)\<close>.
\<close>

definition convert_and_resize :: "task_info \<Rightarrow> world \<Rightarrow> (string \<times> string) option \<times> world" where
  "convert_and_resize task_info w =
     (case task_info of (src_full_path, filename, ps, is_dry_run) \<Rightarrow>
        let final_name = final_name_of filename;
            full_res_target = (full ps, final_name);
            half_res_target = (half ps, final_name);
            quat_res_target = (quarter ps, final_name)
        in if is_dry_run then (Some (final_name, filename), w)
           else (case convert_body src_full_path full_res_target half_res_target quat_res_target w of
                   (Inl e, w1) \<Rightarrow> (None, w1)
                 | (Inr u, w1) \<Rightarrow> (Some (final_name, filename), w1)))"

subsection \<open>perform\_rename\_set\<close>

text \<open>
  The loop over the three directories (lines 185--196); \<open>success\<close> is the variable of
  that name, \<open>DRY_RUN\<close> the global flag.
\<close>

fun rename_in_dirs :: "bool \<Rightarrow> string \<Rightarrow> string \<Rightarrow> dir list \<Rightarrow> bool \<Rightarrow> world \<Rightarrow> bool \<times> world" where
  "rename_in_dirs DRY_RUN src_name dst_name [] success w = (success, w)"
| "rename_in_dirs DRY_RUN src_name dst_name (d # dirs) success w =
     (if path_exists w (d, src_name) then
        (if \<not> DRY_RUN then
           (case os_rename (d, src_name) (d, dst_name) w of
              (Inl e, w1) \<Rightarrow> rename_in_dirs DRY_RUN src_name dst_name dirs False w1
            | (Inr u, w1) \<Rightarrow> rename_in_dirs DRY_RUN src_name dst_name dirs success w1)
         else rename_in_dirs DRY_RUN src_name dst_name dirs success w)
      else rename_in_dirs DRY_RUN src_name dst_name dirs success w)"

definition perform_rename_set :: "bool \<Rightarrow> string \<Rightarrow> string \<Rightarrow> world \<Rightarrow> bool \<times> world" where
  "perform_rename_set DRY_RUN src_name dst_name w =
     (if path_exists w (Root, dst_name) then (False, w)
      else rename_in_dirs DRY_RUN src_name dst_name [Root, HalfRes, QuarterRes] True w)"

subsection \<open>The manifest\<close>

text \<open>
  The manifest is a Python dictionary from the current name to the original file name: an
  association list in insertion order. \<open>rekey\<close> is the statement
  \<^verbatim>\<open>if src_name in manifest: manifest[dst_name] = manifest.pop(src_name)\<close> of lines
  156--157 and 170--171; \<open>record_result\<close> is lines 269--270.
\<close>

type_synonym manifest = "(string \<times> string) list"

definition rekey :: "manifest \<Rightarrow> string \<Rightarrow> string \<Rightarrow> manifest" where
  "rekey manifest src_name dst_name =
     (case map_of manifest src_name of
        None \<Rightarrow> manifest
      | Some v \<Rightarrow> AList.update dst_name v (AList.delete src_name manifest))"

definition record_result :: "manifest \<Rightarrow> string \<Rightarrow> string \<Rightarrow> manifest" where
  "record_result manifest final_name original_name =
     (if map_of manifest final_name = None then AList.update final_name original_name manifest
      else manifest)"

subsection \<open>standardize\_names\_and\_fill\_gaps\<close>

definition is_webp :: "string \<Rightarrow> bool" where
  "is_webp f = endswith (lower f) TARGET_EXT"

text \<open>Lines 122--127: the numbered names go into a dictionary keyed by their number.\<close>

fun split_names :: "string list \<Rightarrow> (nat \<times> string) list \<Rightarrow> string list \<Rightarrow> (nat \<times> string) list \<times> string list" where
  "split_names [] numbered_map others = (numbered_map, others)"
| "split_names (f # files) numbered_map others =
     (let name = fst (splitext f)
      in if isdigit name then split_names files (AList.update (int_of_str name) f numbered_map) others
         else split_names files numbered_map (others @ [f]))"

text \<open>
  Lines 146--161: the loop over the gaps. The two \<^verbatim>\<open>break\<close>s return the state as it is.
\<close>

fun fill_gaps :: "bool \<Rightarrow> nat list \<Rightarrow> nat list \<Rightarrow> int \<Rightarrow> world \<Rightarrow> manifest \<Rightarrow> nat list \<times> world \<times> manifest" where
  "fill_gaps DRY_RUN [] existing_nums curr_high w manifest = (existing_nums, w, manifest)"
| "fill_gaps DRY_RUN (gap # gaps) existing_nums curr_high w manifest =
     (if curr_high < 0 then (existing_nums, w, manifest)
      else
        let source_num = existing_nums ! nat curr_high
        in if source_num < gap then (existing_nums, w, manifest)
           else
             let src_name = str source_num @ TARGET_EXT;
                 dst_name = str gap @ TARGET_EXT;
                 (ok, w1) = perform_rename_set DRY_RUN src_name dst_name w;
                 manifest1 = (if ok then rekey manifest src_name dst_name else manifest)
             in fill_gaps DRY_RUN gaps (existing_nums[nat curr_high := gap]) (curr_high - 1) w1 manifest1)"

text \<open>Lines 167--173: the loop over the other names.\<close>

fun rename_others :: "bool \<Rightarrow> string list \<Rightarrow> nat \<Rightarrow> world \<Rightarrow> manifest \<Rightarrow> nat \<times> world \<times> manifest" where
  "rename_others DRY_RUN [] next_num w manifest = (next_num, w, manifest)"
| "rename_others DRY_RUN (f # others) next_num w manifest =
     (let new_name = str next_num @ TARGET_EXT;
          (ok, w1) = perform_rename_set DRY_RUN f new_name w;
          manifest1 = (if ok then rekey manifest f new_name else manifest)
      in rename_others DRY_RUN others (next_num + 1) w1 manifest1)"

text \<open>
  The function returns the count; the manifest it mutates and the world are returned
  with it. The progress bar (\<^verbatim>\<open>gap_moves\<close>, \<^verbatim>\<open>total_ops\<close>) has no effect and is left out.
\<close>

definition standardize_names_and_fill_gaps :: "bool \<Rightarrow> world \<Rightarrow> manifest \<Rightarrow> nat \<times> world \<times> manifest" where
  "standardize_names_and_fill_gaps DRY_RUN w manifest =
     (let files = filter is_webp (listdir w Root);
          (numbered_map, others) = split_names files [] [];
          existing_nums = sort (map fst numbered_map);
          gaps = (if existing_nums \<noteq> []
                  then filter (\<lambda>i. i \<notin> set existing_nums) [1..<last existing_nums] else []);
          (existing_nums1, w1, manifest1) =
            (if existing_nums \<noteq> [] \<and> gaps \<noteq> []
             then fill_gaps DRY_RUN gaps existing_nums (int (length existing_nums) - 1) w manifest
             else (existing_nums, w, manifest));
          existing_nums2 = sort (remdups existing_nums1);
          next_num = (if existing_nums2 \<noteq> [] then last existing_nums2 + 1 else 1);
          (next_num1, w2, manifest2) = rename_others DRY_RUN others next_num w1 manifest1
      in (next_num1 - 1, w2, manifest2))"

subsection \<open>process\_directory\<close>

text \<open>
  \<^verbatim>\<open>glob.glob(os.path.join(dir_name, "*" + ext))\<close>: the names of the root that end in the
  extension and do not start with a dot.
\<close>

definition glob :: "world \<Rightarrow> string \<Rightarrow> string list" where
  "glob w ext = filter (\<lambda>n. n \<noteq> [] \<and> hd n \<noteq> CHR ''.'' \<and> endswith n ext) (listdir w Root)"

definition exts :: "string list" where
  "exts = [''.png'', ''.jpg'', ''.jpeg'', ''.webp'']"

definition root_files_of :: "world \<Rightarrow> string list" where
  "root_files_of w = sort (remdups (concat (map (\<lambda>ext. glob w ext @ glob w (upper ext)) exts)))"

text \<open>
  Lines 264--270. The pool is modelled by one of the schedules it admits: the tasks run one
  after the other, in the order of the task list, and their results are folded into the
  manifest in that order.
\<close>

fun run_tasks :: "task_info list \<Rightarrow> world \<Rightarrow> manifest \<Rightarrow> world \<times> manifest" where
  "run_tasks [] w manifest = (w, manifest)"
| "run_tasks (t # tasks) w manifest =
     (case convert_and_resize t w of
        (None, w1) \<Rightarrow> run_tasks tasks w1 manifest
      | (Some (final_name, original_name), w1) \<Rightarrow>
          run_tasks tasks w1 (record_result manifest final_name original_name))"

text \<open>
  Lines 199--218: nothing is written in a dry run; otherwise the configuration and then the
  manifest are written into the root. Nothing catches what \<^verbatim>\<open>open\<close> raises here.
\<close>

definition CONFIG_FILENAME :: string where
  "CONFIG_FILENAME = ''config.json''"

definition MANIFEST_FILENAME :: string where
  "MANIFEST_FILENAME = ''manifest.json''"

definition update_config_and_manifest :: "bool \<Rightarrow> nat \<Rightarrow> manifest \<Rightarrow> world \<Rightarrow> (error + unit) \<times> world" where
  "update_config_and_manifest DRY_RUN total_count manifest w =
     (if DRY_RUN then (Inr (), w)
      else (case json_dump (Root, CONFIG_FILENAME) (ConfigData total_count (clock w)) w of
              (Inl e, w1) \<Rightarrow> (Inl e, w1)
            | (Inr u, w1) \<Rightarrow> json_dump (Root, MANIFEST_FILENAME) (ManifestData manifest) w1))"

text \<open>
  One pass over an existing root, from the manifest that was loaded from
  \<^verbatim>\<open>manifest.json\<close>. The pass ends with \<^verbatim>\<open>update_config_and_manifest\<close>; where that raises,
  so does the pass (\<open>Inl\<close>), and otherwise the value is the count and the manifest that
  were written (in a dry run: that would have been written).
\<close>

definition process_directory :: "bool \<Rightarrow> world \<Rightarrow> manifest \<Rightarrow> (error + nat \<times> manifest) \<times> world" where
  "process_directory DRY_RUN w manifest =
     (let root_files = root_files_of w;
          known_sources = set (map snd manifest);
          pending_files = filter (\<lambda>f. f \<notin> known_sources) root_files;
          tasks = map (\<lambda>f. ((Root, f), f, ensure_dirs_paths, DRY_RUN)) pending_files;
          (w1, manifest1) = run_tasks tasks w manifest;
          (total_images, w2, manifest2) = standardize_names_and_fill_gaps DRY_RUN w1 manifest1
      in (case update_config_and_manifest DRY_RUN total_images manifest2 w2 of
            (Inl e, w3) \<Rightarrow> (Inl e, w3)
          | (Inr u, w3) \<Rightarrow> (Inr (total_images, manifest2), w3)))"

subsection \<open>Concrete roots\<close>

definition plain_world :: "(string \<times> entry) list \<Rightarrow> (string \<times> entry) list \<Rightarrow> (string \<times> entry) list \<Rightarrow> world" where
  "plain_world r h q =
     \<lparr>tree = (\<lambda>d. case d of Root \<Rightarrow> r | HalfRes \<Rightarrow> h | QuarterRes \<Rightarrow> q),
      clock = 100, denied = (\<lambda>p. False), log = []\<rparr>"

definition picture :: "nat \<Rightarrow> nat \<times> nat \<Rightarrow> entry" where
  "picture t sz = \<lparr>mtime = t, image = Some sz\<rparr>"

text \<open>A source next to a full tier that is newer than it, with fresh lower tiers.\<close>

definition fresh_full_world :: world where
  "fresh_full_world =
     plain_world [(''a.png'', picture 1 (8, 6)), (''a.webp'', picture 5 (8, 6))]
       [(''a.webp'', picture 6 (4, 3))] [(''a.webp'', picture 7 (2, 1))]"

text \<open>A source and a full tier of the same time; the lower tiers are newer than the clock.\<close>

definition equal_times_world :: world where
  "equal_times_world =
     plain_world [(''b.jpg'', picture 3 (8, 6)), (''b.webp'', picture 3 (8, 6))]
       [(''b.webp'', picture 500 (4, 3))] [(''b.webp'', picture 600 (2, 1))]"

text \<open>One new source in an empty root.\<close>

definition photo_world :: world where
  "photo_world = plain_world [(''photo.png'', picture 1 (640, 481))] [] []"

text \<open>The numeric files 3 and 9 in all three trees, and their manifest.\<close>

definition gap_world :: world where
  "gap_world =
     plain_world [(''3.webp'', picture 1 (8, 6)), (''9.webp'', picture 4 (8, 6))]
       [(''3.webp'', picture 2 (4, 3)), (''9.webp'', picture 5 (4, 3))]
       [(''3.webp'', picture 3 (2, 1)), (''9.webp'', picture 6 (2, 1))]"

definition gap_manifest :: manifest where
  "gap_manifest = [(''3.webp'', ''a.png''), (''9.webp'', ''b.png'')]"

definition three_tiers :: "entry \<Rightarrow> entry \<Rightarrow> entry \<Rightarrow> dir \<Rightarrow> entry" where
  "three_tiers f h q d = (case d of Root \<Rightarrow> f | HalfRes \<Rightarrow> h | QuarterRes \<Rightarrow> q)"

text \<open>The files 1 and 3 after file 2 was deleted by hand; the manifest still has its entry.\<close>

definition deleted_world :: world where
  "deleted_world =
     plain_world [(''1.webp'', picture 1 (8, 6)), (''3.webp'', picture 4 (8, 6))]
       [(''1.webp'', picture 2 (4, 3)), (''3.webp'', picture 5 (4, 3))]
       [(''1.webp'', picture 3 (2, 1)), (''3.webp'', picture 6 (2, 1))]"

definition deleted_manifest :: manifest where
  "deleted_manifest = [(''1.webp'', ''a.png''), (''2.webp'', ''b.png''), (''3.webp'', ''c.png'')]"

text \<open>A source that is no image next to one that is.\<close>

definition broken_world :: world where
  "broken_world =
     plain_world [(''bad.png'', \<lparr>mtime = 1, image = None\<rparr>), (''good.png'', picture 2 (4, 4))] [] []"

text \<open>
  The second world differs from the first only by renames between names that end in
  \<^verbatim>\<open>.webp\<close>: files of any other name are as they were.
\<close>

definition webp_renames :: "world \<Rightarrow> world \<Rightarrow> bool" where
  "webp_renames w w' \<longleftrightarrow>
     (\<forall>d n. \<not> is_webp n \<longrightarrow> lookup w' (d, n) = lookup w (d, n))
     \<and> (\<exists>evs. log w' = log w @ evs
           \<and> (\<forall>e\<in>set evs. \<exists>d s t. e = Rename (d, s) (d, t) \<and> is_webp s \<and> is_webp t))"

text \<open>A root with a source, the two JSON files, a numbered file and a new one.\<close>

definition mixed_world :: world where
  "mixed_world =
     plain_world [(''7.png'', picture 1 (8, 6)), (''config.json'', \<lparr>mtime = 2, image = None\<rparr>),
                  (''manifest.json'', \<lparr>mtime = 2, image = None\<rparr>), (''4.webp'', picture 3 (8, 6)),
                  (''new.webp'', picture 4 (8, 6))]
       [(''4.webp'', picture 5 (4, 3))] [(''4.webp'', picture 6 (2, 1))]"

text \<open>
  A full tier of 8 by 6 with a half tier of 5 by 5 that is newer than it, and a full tier of
  9 by 7 with a half tier of 4 by 3 that is newer than it; neither has a quarter tier.
\<close>

definition kept_half_world :: world where
  "kept_half_world =
     plain_world [(''c.webp'', picture 1 (8, 6))] [(''c.webp'', picture 2 (5, 5))] []"

definition quarter_only_world :: world where
  "quarter_only_world =
     plain_world [(''d.webp'', picture 1 (9, 7))] [(''d.webp'', picture 2 (4, 3))] []"

definition quarter_only_task :: task_info where
  "quarter_only_task = ((Root, ''d.webp''), ''d.webp'', ensure_dirs_paths, False)"

text \<open>
  The world after \<^verbatim>\<open>Image.open\<close> on one path and \<^verbatim>\<open>save\<close> of that size on another; a path
  that is missing or has a time before the given one.
\<close>

definition saved :: "path \<Rightarrow> path \<Rightarrow> nat \<times> nat \<Rightarrow> world \<Rightarrow> world" where
  "saved s t sz w =
     (put_file t \<lparr>mtime = clock w, image = Some sz\<rparr> (log_event (Save t) (log_event (Open s) w)))
       \<lparr>clock := clock w + 1\<rparr>"

definition older :: "world \<Rightarrow> path \<Rightarrow> nat \<Rightarrow> bool" where
  "older w p t = (case lookup w p of None \<Rightarrow> True | Some x \<Rightarrow> mtime x < t)"

subsection \<open>Two runs and settled roots\<close>

text \<open>
  A first run from an empty manifest (no \<^verbatim>\<open>manifest.json\<close> yet), the run after it, which
  loads the manifest the first has written, and the calls the second adds. A pass that
  raises ends the program.
\<close>

definition first_run :: "world \<Rightarrow> (error + nat \<times> manifest) \<times> world" where
  "first_run w = process_directory False w []"

definition second_run :: "world \<Rightarrow> (error + nat \<times> manifest) \<times> world" where
  "second_run w =
     (case first_run w of
        (Inl e, w1) \<Rightarrow> (Inl e, w1)
      | (Inr (cnt, manifest1), w1) \<Rightarrow> process_directory False w1 manifest1)"

definition new_events :: "world \<Rightarrow> event list" where
  "new_events w = drop (length (log (snd (first_run w)))) (log (snd (second_run w)))"

text \<open>
  A root is settled when every file that a run would take up (an image file of the root
  whose name is not a value of the manifest) is a \<^verbatim>\<open>.webp\<close> file under its final name, is a
  key of the manifest, and has a half tier no older than itself and a quarter tier no
  older than the half tier; and when the \<^verbatim>\<open>.webp\<close> names of the root are numbers without
  a gap between 1 and their maximum.
\<close>

definition pending_files_of :: "world \<Rightarrow> manifest \<Rightarrow> string list" where
  "pending_files_of w manifest = filter (\<lambda>f. f \<notin> set (map snd manifest)) (root_files_of w)"

definition fresh_asset :: "world \<Rightarrow> manifest \<Rightarrow> string \<Rightarrow> bool" where
  "fresh_asset w manifest f =
     (final_name_of f = f \<and> map_of manifest f \<noteq> None \<and>
      (case (lookup w (Root, f), lookup w (HalfRes, f), lookup w (QuarterRes, f)) of
         (Some e, Some h, Some q) \<Rightarrow> mtime e \<le> mtime h \<and> mtime h \<le> mtime q
       | _ \<Rightarrow> False))"

definition numbers_of :: "string list \<Rightarrow> nat list" where
  "numbers_of files = map (\<lambda>f. int_of_str (fst (splitext f))) files"

definition dense :: "string list \<Rightarrow> bool" where
  "dense files =
     (list_all (\<lambda>f. isdigit (fst (splitext f))) files \<and>
      list_all (\<lambda>i. i \<in> set (numbers_of files)) [1..<foldr max (numbers_of files) 0])"

definition settled :: "world \<Rightarrow> manifest \<Rightarrow> bool" where
  "settled w manifest =
     (list_all (fresh_asset w manifest) (pending_files_of w manifest) \<and>
      dense (filter is_webp (listdir w Root)))"

text \<open>Two sources of the same stem; a source whose extension is in upper case.\<close>

definition two_stems_world :: world where
  "two_stems_world = plain_world [(''a.jpg'', picture 1 (8, 6)), (''a.png'', picture 2 (8, 6))] [] []"

definition upper_ext_world :: world where
  "upper_ext_world = plain_world [(''a.WEBP'', picture 1 (8, 6))] [] []"

section \<open>Properties\<close>

subsection \<open>The world\<close>

lemma lookup_put_file [simp]:
  "lookup (put_file p f w) q = (if q = p then Some f else lookup w q)"
  by (cases p; cases q) (simp add: lookup_def put_file_def update_conv')

lemma lookup_drop_file [simp]:
  "lookup (drop_file p w) q = (if q = p then None else lookup w q)"
  by (cases p; cases q) (simp add: lookup_def drop_file_def delete_conv')

lemma lookup_log_event [simp]: "lookup (log_event e w) q = lookup w q"
  by (simp add: lookup_def log_event_def)

lemma lookup_clock_update [simp]: "lookup (w\<lparr>clock := c\<rparr>) q = lookup w q"
  by (simp add: lookup_def)

lemma fields_put_file [simp]:
  "clock (put_file p f w) = clock w"
  "denied (put_file p f w) = denied w"
  "log (put_file p f w) = log w"
  by (simp_all add: put_file_def)

lemma fields_drop_file [simp]:
  "clock (drop_file p w) = clock w"
  "denied (drop_file p w) = denied w"
  "log (drop_file p w) = log w"
  by (simp_all add: drop_file_def)

lemma fields_log_event [simp]:
  "clock (log_event e w) = clock w"
  "denied (log_event e w) = denied w"
  "log (log_event e w) = log w @ [e]"
  by (simp_all add: log_event_def)

subsection \<open>The worker\<close>

lemma splitext_ext:
  assumes "CHR ''.'' \<notin> set ext" "\<not> list_all (\<lambda>c. c = CHR ''.'') stem"
  shows "splitext (stem @ CHR ''.'' # ext) = (stem, CHR ''.'' # ext)"
proof -
  have "takeWhile (\<lambda>c. c \<noteq> CHR ''.'') (rev ext) = rev ext"
    using assms(1) by (auto simp add: takeWhile_eq_all_conv)
  then have tw: "takeWhile (\<lambda>c. c \<noteq> CHR ''.'') (rev ext @ CHR ''.'' # rev stem) = rev ext"
    by (simp add: takeWhile_tail)
  show ?thesis
    using assms(2) by (simp add: splitext_def tw)
qed

lemma splitext_plain: "CHR ''.'' \<notin> set p \<Longrightarrow> splitext p = (p, [])"
  by (simp add: splitext_def)

lemma missing_source_fails:
  assumes "lookup w src = None"
  shows "convert_and_resize (src, filename, ps, False) w = (None, w)"
  using assms
  by (simp add: convert_and_resize_def convert_body_def step1_full_def needs_process_of_def
      getmtime_def Let_def)

lemma broken_source_fails:
  assumes "lookup w src = Some e" "image e = None" "src \<noteq> (full ps, final_name_of filename)"
  shows "convert_and_resize (src, filename, ps, False) w = (None, log_event (Open src) w)"
proof -
  have "\<exists>b. needs_process_of w src (full ps, final_name_of filename) = Inr b"
    using assms(1) by (cases "lookup w (full ps, final_name_of filename)")
      (auto simp add: needs_process_of_def getmtime_def path_exists_def)
  then obtain b where b: "needs_process_of w src (full ps, final_name_of filename) = Inr b" ..
  have "step1_full src (full ps, final_name_of filename) w
      = (Inl (UnidentifiedImageError src), log_event (Open src) w)"
    using assms b by (simp add: step1_full_def image_open_def)
  then show ?thesis
    by (simp add: convert_and_resize_def convert_body_def Let_def)
qed

text \<open>
  C10. With the dry-run flag set, \<open>convert_and_resize\<close> returns, for every task and every
  world, the pair of the final name and the original file name, and the world, its log of
  calls included, is the one it was given. The final name is the file name with its
  extension replaced by \<^verbatim>\<open>.webp\<close> (appended where the name has none). Nothing is read: where
  the source is missing, or is no image and not itself the target, the same task without
  the flag returns \<open>None\<close>.
\<close>

theorem dry_run_reports_success:
  "convert_and_resize (src_full_path, filename, ps, True) w
     = (Some (final_name_of filename, filename), w)
   \<and> (filename = stem @ CHR ''.'' # ext \<and> CHR ''.'' \<notin> set ext \<and> \<not> list_all (\<lambda>c. c = CHR ''.'') stem
        \<longrightarrow> fst (convert_and_resize (src_full_path, filename, ps, True) w)
              = Some (stem @ ''.webp'', filename))
   \<and> (CHR ''.'' \<notin> set filename
        \<longrightarrow> fst (convert_and_resize (src_full_path, filename, ps, True) w)
              = Some (filename @ ''.webp'', filename))
   \<and> (lookup w src_full_path = None
        \<longrightarrow> convert_and_resize (src_full_path, filename, ps, False) w = (None, w))
   \<and> (\<forall>e. lookup w src_full_path = Some e \<and> image e = None
            \<and> src_full_path \<noteq> (full ps, final_name_of filename)
        \<longrightarrow> convert_and_resize (src_full_path, filename, ps, False) w
              = (None, log_event (Open src_full_path) w))"
proof -
  have dry: "convert_and_resize (src_full_path, filename, ps, True) w
     = (Some (final_name_of filename, filename), w)"
    by (simp add: convert_and_resize_def)
  have a: "final_name_of filename = stem @ ''.webp''"
    if "filename = stem @ CHR ''.'' # ext" "CHR ''.'' \<notin> set ext" "\<not> list_all (\<lambda>c. c = CHR ''.'') stem"
    using that splitext_ext [of ext stem] by (simp add: final_name_of_def)
  have b: "final_name_of filename = filename @ ''.webp''" if "CHR ''.'' \<notin> set filename"
    using that by (simp add: final_name_of_def splitext_plain)
  show ?thesis
    using dry a b missing_source_fails [of w src_full_path filename ps]
      broken_source_fails [of w src_full_path _ ps filename]
    by auto
qed

theorem dry_run_reports_success_witness:
  "convert_and_resize ((Root, ''bad.png''), ''bad.png'', ensure_dirs_paths, True) broken_world
     = (Some (''bad.webp'', ''bad.png''), broken_world)
   \<and> convert_and_resize ((Root, ''bad.png''), ''bad.png'', ensure_dirs_paths, False) broken_world
     = (None, log_event (Open (Root, ''bad.png'')) broken_world)
   \<and> convert_and_resize ((Root, ''gone.jpg''), ''gone.jpg'', ensure_dirs_paths, True) broken_world
     = (Some (''gone.webp'', ''gone.jpg''), broken_world)
   \<and> convert_and_resize ((Root, ''gone.jpg''), ''gone.jpg'', ensure_dirs_paths, False) broken_world
     = (None, broken_world)
   \<and> fst (convert_and_resize ((Root, ''README''), ''README'', ensure_dirs_paths, True) broken_world)
     = Some (''README.webp'', ''README'')"
proof -
  have bad: "lookup broken_world (Root, ''bad.png'') = Some \<lparr>mtime = 1, image = None\<rparr>"
    and gone: "lookup broken_world (Root, ''gone.jpg'') = None"
    by (simp_all add: broken_world_def plain_world_def lookup_def)
  have ne: "(Root, ''bad.png'') \<noteq> (full ensure_dirs_paths, final_name_of ''bad.png'')"
    by code_simp
  have nodot: "CHR ''.'' \<notin> set ''png''" "\<not> list_all (\<lambda>c. c = CHR ''.'') ''bad''"
    "CHR ''.'' \<notin> set ''jpg''" "\<not> list_all (\<lambda>c. c = CHR ''.'') ''gone''"
    "CHR ''.'' \<notin> set ''README''"
    by simp_all
  from dry_run_reports_success [of "(Root, ''bad.png'')" "''bad.png''" ensure_dirs_paths broken_world
      "''bad''" "''png''"] bad ne nodot
  have 1: "convert_and_resize ((Root, ''bad.png''), ''bad.png'', ensure_dirs_paths, True) broken_world
     = (Some (''bad.webp'', ''bad.png''), broken_world)"
    and 2: "convert_and_resize ((Root, ''bad.png''), ''bad.png'', ensure_dirs_paths, False) broken_world
     = (None, log_event (Open (Root, ''bad.png'')) broken_world)"
    by auto
  from dry_run_reports_success [of "(Root, ''gone.jpg'')" "''gone.jpg''" ensure_dirs_paths broken_world
      "''gone''" "''jpg''"] gone nodot
  have 3: "convert_and_resize ((Root, ''gone.jpg''), ''gone.jpg'', ensure_dirs_paths, True) broken_world
     = (Some (''gone.webp'', ''gone.jpg''), broken_world)"
    and 4: "convert_and_resize ((Root, ''gone.jpg''), ''gone.jpg'', ensure_dirs_paths, False) broken_world
     = (None, broken_world)"
    by auto
  from dry_run_reports_success [of "(Root, ''README'')" "''README''" ensure_dirs_paths broken_world
      "[]" "[]"]
  have "CHR ''.'' \<notin> set ''README'' \<longrightarrow>
      fst (convert_and_resize ((Root, ''README''), ''README'', ensure_dirs_paths, True) broken_world)
        = Some (''README'' @ ''.webp'', ''README'')"
    by blast
  then have 5: "fst (convert_and_resize ((Root, ''README''), ''README'', ensure_dirs_paths, True) broken_world)
     = Some (''README.webp'', ''README'')"
    by simp
  from 1 2 3 4 5 show ?thesis by simp
qed

text \<open>
  C2. The full tier is not gated by the modification times. In \<open>fresh_full_world\<close> the
  target \<^verbatim>\<open>a.webp\<close> exists and is newer than the source \<^verbatim>\<open>a.png\<close>, so that
  \<^verbatim>\<open>needs_process\<close> is false; the disjunct \<^verbatim>\<open>src_full_path != full_res_target\<close> of line 75
  still opens the source and saves the full tier, which makes the lower tiers stale.
\<close>

theorem fresh_full_tier_is_rewritten:
  "path_exists fresh_full_world (Root, ''a.webp'')
   \<and> getmtime fresh_full_world (Root, ''a.png'') = Inr 1
   \<and> getmtime fresh_full_world (Root, ''a.webp'') = Inr 5
   \<and> needs_process_of fresh_full_world (Root, ''a.png'') (Root, ''a.webp'') = Inr False
   \<and> fst (convert_and_resize ((Root, ''a.png''), ''a.png'', ensure_dirs_paths, False) fresh_full_world)
       = Some (''a.webp'', ''a.png'')
   \<and> log (snd (convert_and_resize ((Root, ''a.png''), ''a.png'', ensure_dirs_paths, False) fresh_full_world))
       = [Open (Root, ''a.png''), Save (Root, ''a.webp''),
          Open (Root, ''a.webp''), Save (HalfRes, ''a.webp''),
          Open (HalfRes, ''a.webp''), Save (QuarterRes, ''a.webp'')]
   \<and> getmtime (snd (convert_and_resize ((Root, ''a.png''), ''a.png'', ensure_dirs_paths, False) fresh_full_world))
         (Root, ''a.webp'') = Inr 100"
  by code_simp

text \<open>
  C5. The rule ``skip if and only if the target exists and the upstream is not newer''
  holds at the half and the quarter boundary and not at the full one. In
  \<open>equal_times_world\<close> source and full tier have the same time: the full tier is
  regenerated all the same (one \<open>Open\<close> of the source, one \<open>Save\<close> of the target), while
  the half and the quarter tier, both newer than their upstream, are skipped.
\<close>

theorem full_tier_regenerated_at_equal_times:
  "path_exists equal_times_world (Root, ''b.webp'')
   \<and> getmtime equal_times_world (Root, ''b.jpg'') = Inr 3
   \<and> getmtime equal_times_world (Root, ''b.webp'') = Inr 3
   \<and> log (snd (convert_and_resize ((Root, ''b.jpg''), ''b.jpg'', ensure_dirs_paths, False) equal_times_world))
       = [Open (Root, ''b.jpg''), Save (Root, ''b.webp'')]
   \<and> getmtime (snd (convert_and_resize ((Root, ''b.jpg''), ''b.jpg'', ensure_dirs_paths, False) equal_times_world))
         (Root, ''b.webp'') = Inr 100"
  by code_simp

lemma quarter_nat: "max 1 (max 1 (a div 2) div 2) = max (1::nat) (a div 4)"
proof -
  have "a div 2 div 2 = a div 4" by (simp add: div_mult2_eq [symmetric])
  then show ?thesis by (cases "a div 2 = 0") (auto simp add: max_def)
qed

lemma halve_halve: "halve (halve (W, H)) = (max 1 (W div 4), max 1 (H div 4))"
  using quarter_nat [of W] quarter_nat [of H] by (simp add: halve_def)

lemma saved_simps [simp]:
  "lookup (saved s t sz w) p = (if p = t then Some \<lparr>mtime = clock w, image = Some sz\<rparr> else lookup w p)"
  "log (saved s t sz w) = log w @ [Open s, Save t]"
  "clock (saved s t sz w) = clock w + 1"
  "denied (saved s t sz w) = denied w"
  by (simp_all add: saved_def)

lemma step1_full_ok:
  assumes "lookup w src = Some f" "image f = Some sz" "\<not> denied w t"
  shows "step1_full src t w = (Inr (), if src = t then w else saved src t sz w)"
proof (cases "src = t")
  case True
  then show ?thesis
    using assms by (simp add: step1_full_def needs_process_of_def getmtime_def path_exists_def)
next
  case False
  have "\<exists>b. needs_process_of w src t = Inr b"
    using assms(1) by (cases "lookup w t")
      (auto simp add: needs_process_of_def getmtime_def path_exists_def)
  then obtain b where "needs_process_of w src t = Inr b" ..
  then show ?thesis
    using False assms by (simp add: step1_full_def image_open_def image_save_def saved_def)
qed

lemma step2_half_ok:
  assumes "lookup w t = Some fe" "image fe = Some sz" "\<not> denied w h"
  shows "step2_half t h w = (Inr (), if older w h (mtime fe) then saved t h (halve sz) w else w)"
  using assms
  by (cases "lookup w h")
    (auto simp add: step2_half_def half_needs_update_of_def getmtime_def path_exists_def
      image_open_def image_save_def saved_def older_def)

lemma step3_quarter_ok:
  assumes "lookup w h = Some he" "image he = Some sz" "\<not> denied w q"
  shows "step3_quarter h q w = (Inr (), if older w q (mtime he) then saved h q (halve sz) w else w)"
  using assms
  by (cases "lookup w q")
    (auto simp add: step3_quarter_def quat_needs_update_of_def getmtime_def path_exists_def
      image_open_def image_save_def saved_def older_def)

text \<open>
  C6 as the specification states it does not hold for every full tier. In
  \<open>kept_half_world\<close> the full tier is 8 by 6 and the half tier that is there, 5 by 5, is
  judged fresh and kept; the quarter tier is made from it and is 2 by 2, not 2 by 1.
\<close>

theorem quarter_of_a_kept_half_tier:
  "map_option image (lookup kept_half_world (Root, ''c.webp'')) = Some (Some (8, 6))
   \<and> fst (convert_and_resize ((Root, ''c.webp''), ''c.webp'', ensure_dirs_paths, False) kept_half_world)
       = Some (''c.webp'', ''c.webp'')
   \<and> log (snd (convert_and_resize ((Root, ''c.webp''), ''c.webp'', ensure_dirs_paths, False) kept_half_world))
       = [Open (HalfRes, ''c.webp''), Save (QuarterRes, ''c.webp'')]
   \<and> map_option image (lookup (snd (convert_and_resize ((Root, ''c.webp''), ''c.webp'', ensure_dirs_paths, False)
         kept_half_world)) (HalfRes, ''c.webp'')) = Some (Some (5, 5))
   \<and> map_option image (lookup (snd (convert_and_resize ((Root, ''c.webp''), ''c.webp'', ensure_dirs_paths, False)
         kept_half_world)) (QuarterRes, ''c.webp'')) = Some (Some (2, 2))
   \<and> map_option image (lookup (snd (convert_and_resize ((Root, ''c.webp''), ''c.webp'', ensure_dirs_paths, False)
         kept_half_world)) (QuarterRes, ''c.webp'')) \<noteq> Some (Some (max 1 (8 div 4), max 1 (6 div 4)))"
  by code_simp

lemma convert_ok:
  assumes src: "lookup w src = Some f" "image f = Some sz"
    and ok: "\<not> denied w (Root, n)" "\<not> denied w (HalfRes, n)" "\<not> denied w (QuarterRes, n)"
    and w1: "w1 = (if src = (Root, n) then w else saved src (Root, n) sz w)"
    and fe: "lookup w1 (Root, n) = Some fe"
    and w2: "w2 = (if older w1 (HalfRes, n) (mtime fe) then saved (Root, n) (HalfRes, n) (halve sz) w1 else w1)"
    and he: "lookup w2 (HalfRes, n) = Some he"
    and hs: "image he = Some hs"
    and w3: "w3 = (if older w2 (QuarterRes, n) (mtime he) then saved (HalfRes, n) (QuarterRes, n) (halve hs) w2 else w2)"
  shows "convert_body src (Root, n) (HalfRes, n) (QuarterRes, n) w = (Inr (), w3)"
proof -
  have s1: "step1_full src (Root, n) w = (Inr (), w1)"
    using step1_full_ok [OF src ok(1)] w1 by simp
  have d1: "denied w1 = denied w" using w1 by simp
  have ife: "image fe = Some sz" using fe w1 src by (auto split: if_splits)
  have s2: "step2_half (Root, n) (HalfRes, n) w1 = (Inr (), w2)"
    using step2_half_ok [OF fe ife, of "(HalfRes, n)"] ok(2) d1 w2 by simp
  have d2: "denied w2 = denied w" using w2 d1 by simp
  have s3: "step3_quarter (HalfRes, n) (QuarterRes, n) w2 = (Inr (), w3)"
    using step3_quarter_ok [OF he hs, of "(QuarterRes, n)"] ok(3) d2 w3 by simp
  show ?thesis using s1 s2 s3 by (simp add: convert_body_def)
qed


text \<open>
  C6, amended. Whenever the source decodes as an image of size \<open>W \<times> H\<close>, no write is
  refused and a half tier that is there decodes, the run succeeds and the full tier has
  size \<open>W \<times> H\<close>. The half tier is saved in the run exactly when it was missing or older
  than the full tier, and then has size \<open>(max 1 (W div 2), max 1 (H div 2))\<close>; otherwise it
  is the file it was. The quarter tier is saved exactly when it was missing or older than
  that half tier, and then it is made from the half tier: the last two calls are the
  opening of the half tier and the saving of the quarter tier, whose size is the half
  tier's, halved. So it is \<open>(max 1 (W div 4), max 1 (H div 4))\<close> whenever the half tier has
  the size \<open>(max 1 (W div 2), max 1 (H div 2))\<close>, saved in this run or kept.
\<close>

theorem chaining_correctness:
  assumes src: "lookup w src = Some f" "image f = Some (W, H)"
    and n: "n = final_name_of filename"
    and ok: "\<not> denied w (Root, n)" "\<not> denied w (HalfRes, n)" "\<not> denied w (QuarterRes, n)"
    and half_ok: "\<forall>h. lookup w (HalfRes, n) = Some h \<longrightarrow> image h \<noteq> None"
    and res: "convert_and_resize (src, filename, ensure_dirs_paths, False) w = (r, w')"
  shows "r = Some (n, filename)
    \<and> map_option image (lookup w' (Root, n)) = Some (Some (W, H))
    \<and> (\<exists>evs he hw hh. log w' = log w @ evs
         \<and> lookup w' (HalfRes, n) = Some he \<and> image he = Some (hw, hh)
         \<and> (Save (HalfRes, n) \<in> set evs
              \<longleftrightarrow> older w (HalfRes, n) (if src = (Root, n) then mtime f else clock w))
         \<and> (Save (HalfRes, n) \<in> set evs \<longrightarrow> (hw, hh) = (max 1 (W div 2), max 1 (H div 2)))
         \<and> (Save (HalfRes, n) \<notin> set evs \<longrightarrow> lookup w (HalfRes, n) = Some he)
         \<and> (Save (QuarterRes, n) \<in> set evs \<longleftrightarrow> older w (QuarterRes, n) (mtime he))
         \<and> (Save (QuarterRes, n) \<in> set evs \<longrightarrow>
               map_option image (lookup w' (QuarterRes, n))
                 = Some (Some (max 1 (hw div 2), max 1 (hh div 2)))
               \<and> (\<exists>pre. evs = pre @ [Open (HalfRes, n), Save (QuarterRes, n)]))
         \<and> (Save (QuarterRes, n) \<notin> set evs \<longrightarrow> lookup w' (QuarterRes, n) = lookup w (QuarterRes, n))
         \<and> (Save (QuarterRes, n) \<in> set evs \<and> (hw, hh) = (max 1 (W div 2), max 1 (H div 2)) \<longrightarrow>
               map_option image (lookup w' (QuarterRes, n))
                 = Some (Some (max 1 (W div 4), max 1 (H div 4)))))"
proof -
  define tf where "tf = (if src = (Root, n) then mtime f else clock w)"
  define w1 where "w1 = (if src = (Root, n) then w else saved src (Root, n) (W, H) w)"
  define fe where "fe = (if src = (Root, n) then f else \<lparr>mtime = clock w, image = Some (W, H)\<rparr>)"
  have fe: "lookup w1 (Root, n) = Some fe" "mtime fe = tf" "image fe = Some (W, H)"
    using src by (auto simp add: w1_def fe_def tf_def)
  have l1: "lookup w1 (HalfRes, n) = lookup w (HalfRes, n)"
    "lookup w1 (QuarterRes, n) = lookup w (QuarterRes, n)"
    by (simp_all add: w1_def)
  define hreg where "hreg = older w (HalfRes, n) tf"
  have hreg1: "older w1 (HalfRes, n) (mtime fe) = hreg"
    by (simp add: hreg_def older_def l1 fe)
  define w2 where "w2 = (if hreg then saved (Root, n) (HalfRes, n) (halve (W, H)) w1 else w1)"
  have "\<exists>he. lookup w2 (HalfRes, n) = Some he \<and> image he \<noteq> None
      \<and> (hreg \<longrightarrow> image he = Some (halve (W, H)))
      \<and> (\<not> hreg \<longrightarrow> lookup w (HalfRes, n) = Some he)"
    using half_ok by (cases "lookup w (HalfRes, n)") (auto simp add: w2_def l1 hreg_def older_def)
  then obtain he hw hh where he: "lookup w2 (HalfRes, n) = Some he" "image he = Some (hw, hh)"
    "hreg \<longrightarrow> image he = Some (halve (W, H))" "\<not> hreg \<longrightarrow> lookup w (HalfRes, n) = Some he"
    by fastforce
  have l2: "lookup w2 (QuarterRes, n) = lookup w (QuarterRes, n)" "lookup w2 (Root, n) = Some fe"
    using fe by (simp_all add: w2_def l1)
  define qreg where "qreg = older w (QuarterRes, n) (mtime he)"
  have qreg2: "older w2 (QuarterRes, n) (mtime he) = qreg"
    by (simp add: qreg_def older_def l2)
  define w3 where "w3 = (if qreg then saved (HalfRes, n) (QuarterRes, n) (halve (hw, hh)) w2 else w2)"
  have w1e: "w1 = (if src = (Root, n) then w else saved src (Root, n) (W, H) w)"
    by (simp add: w1_def)
  have w2e: "w2 = (if older w1 (HalfRes, n) (mtime fe)
      then saved (Root, n) (HalfRes, n) (halve (W, H)) w1 else w1)"
    by (simp only: w2_def hreg1)
  have w3e: "w3 = (if older w2 (QuarterRes, n) (mtime he)
      then saved (HalfRes, n) (QuarterRes, n) (halve (hw, hh)) w2 else w2)"
    by (simp only: w3_def qreg2)
  have "convert_body src (Root, n) (HalfRes, n) (QuarterRes, n) w = (Inr (), w3)"
    by (rule convert_ok [OF src ok w1e fe(1) w2e he(1) he(2) w3e])
  then have "convert_and_resize (src, filename, ensure_dirs_paths, False) w = (Some (n, filename), w3)"
    using n by (simp add: convert_and_resize_def ensure_dirs_paths_def Let_def)
  with res have r: "r = Some (n, filename)" and w': "w' = w3" by simp_all
  define evs where "evs = (if src = (Root, n) then [] else [Open src, Save (Root, n)])
      @ (if hreg then [Open (Root, n), Save (HalfRes, n)] else [])
      @ (if qreg then [Open (HalfRes, n), Save (QuarterRes, n)] else [])"
  have lg: "log w3 = log w @ evs"
    by (simp add: w3_def w2_def w1_def evs_def)
  have sh: "Save (HalfRes, n) \<in> set evs \<longleftrightarrow> hreg"
    and sq: "Save (QuarterRes, n) \<in> set evs \<longleftrightarrow> qreg"
    by (auto simp add: evs_def)
  have pre: "\<exists>pre. evs = pre @ [Open (HalfRes, n), Save (QuarterRes, n)]" if qreg
    using that by (simp add: evs_def)
  have f3: "lookup w3 (Root, n) = Some fe" "lookup w3 (HalfRes, n) = Some he"
    using l2 he(1) by (simp_all add: w3_def)
  have q3: "lookup w3 (QuarterRes, n)
      = (if qreg then Some \<lparr>mtime = clock w2, image = Some (halve (hw, hh))\<rparr>
         else lookup w (QuarterRes, n))"
    using l2 by (simp add: w3_def)
  have hsz: "(hw, hh) = (max 1 (W div 2), max 1 (H div 2))" if hreg
    using that he(2,3) by (simp add: halve_def)
  have qq: "halve (hw, hh) = (max 1 (W div 4), max 1 (H div 4))"
    if "(hw, hh) = (max 1 (W div 2), max 1 (H div 2))"
    using that quarter_nat [of W] quarter_nat [of H] by (simp add: halve_def)
  have "log w' = log w @ evs
         \<and> lookup w' (HalfRes, n) = Some he \<and> image he = Some (hw, hh)
         \<and> (Save (HalfRes, n) \<in> set evs
              \<longleftrightarrow> older w (HalfRes, n) (if src = (Root, n) then mtime f else clock w))
         \<and> (Save (HalfRes, n) \<in> set evs \<longrightarrow> (hw, hh) = (max 1 (W div 2), max 1 (H div 2)))
         \<and> (Save (HalfRes, n) \<notin> set evs \<longrightarrow> lookup w (HalfRes, n) = Some he)
         \<and> (Save (QuarterRes, n) \<in> set evs \<longleftrightarrow> older w (QuarterRes, n) (mtime he))
         \<and> (Save (QuarterRes, n) \<in> set evs \<longrightarrow>
               map_option image (lookup w' (QuarterRes, n))
                 = Some (Some (max 1 (hw div 2), max 1 (hh div 2)))
               \<and> (\<exists>pre. evs = pre @ [Open (HalfRes, n), Save (QuarterRes, n)]))
         \<and> (Save (QuarterRes, n) \<notin> set evs \<longrightarrow> lookup w' (QuarterRes, n) = lookup w (QuarterRes, n))
         \<and> (Save (QuarterRes, n) \<in> set evs \<and> (hw, hh) = (max 1 (W div 2), max 1 (H div 2)) \<longrightarrow>
               map_option image (lookup w' (QuarterRes, n))
                 = Some (Some (max 1 (W div 4), max 1 (H div 4))))"
    unfolding w' sh sq
    using lg f3 he(2) he(4) hsz pre qq
    by (simp add: q3 hreg_def [symmetric] qreg_def [symmetric] tf_def [symmetric])
      (simp add: halve_def)
  then show ?thesis using r w' f3 fe(3) by blast
qed

theorem chaining_correctness_witness:
  "fst (convert_and_resize quarter_only_task quarter_only_world) = Some (''d.webp'', ''d.webp'')
   \<and> log (snd (convert_and_resize quarter_only_task quarter_only_world))
       = [Open (HalfRes, ''d.webp''), Save (QuarterRes, ''d.webp'')]
   \<and> map_option image (lookup (snd (convert_and_resize quarter_only_task quarter_only_world))
         (QuarterRes, ''d.webp'')) = Some (Some (2, 1))"
proof -
  let ?w' = "snd (convert_and_resize quarter_only_task quarter_only_world)"
  have src: "lookup quarter_only_world (Root, ''d.webp'') = Some (picture 1 (9, 7))"
    by code_simp
  have img: "image (picture 1 (9, 7)) = Some (9, 7)"
    by (simp add: picture_def)
  have n: "''d.webp'' = final_name_of ''d.webp''"
    by code_simp
  have ok: "\<not> denied quarter_only_world (Root, ''d.webp'')"
    "\<not> denied quarter_only_world (HalfRes, ''d.webp'')"
    "\<not> denied quarter_only_world (QuarterRes, ''d.webp'')"
    by (simp_all add: quarter_only_world_def plain_world_def)
  have half: "lookup quarter_only_world (HalfRes, ''d.webp'') = Some (picture 2 (4, 3))"
    and quat: "lookup quarter_only_world (QuarterRes, ''d.webp'') = None"
    by (simp_all add: quarter_only_world_def plain_world_def lookup_def)
  have half_ok: "\<forall>h. lookup quarter_only_world (HalfRes, ''d.webp'') = Some h \<longrightarrow> image h \<noteq> None"
    using half by (simp add: picture_def)
  have res: "convert_and_resize ((Root, ''d.webp''), ''d.webp'', ensure_dirs_paths, False) quarter_only_world
      = (fst (convert_and_resize quarter_only_task quarter_only_world), ?w')"
    by (simp add: quarter_only_task_def)
  note t = chaining_correctness [OF src img n ok half_ok res]
  from t have r: "fst (convert_and_resize quarter_only_task quarter_only_world)
        = Some (''d.webp'', ''d.webp'')"
    by (rule conjunct1)
  from t obtain evs he hw hh where lg: "log ?w' = log quarter_only_world @ evs"
    and sh: "Save (HalfRes, ''d.webp'') \<in> set evs
        \<longleftrightarrow> older quarter_only_world (HalfRes, ''d.webp'')
              (if (Root, ''d.webp'') = (Root, ''d.webp'') then mtime (picture 1 (9, 7))
               else clock quarter_only_world)"
    and keep: "Save (HalfRes, ''d.webp'') \<notin> set evs
        \<longrightarrow> lookup quarter_only_world (HalfRes, ''d.webp'') = Some he"
    and he: "image he = Some (hw, hh)"
    and sq: "Save (QuarterRes, ''d.webp'') \<in> set evs
        \<longleftrightarrow> older quarter_only_world (QuarterRes, ''d.webp'') (mtime he)"
    and q: "Save (QuarterRes, ''d.webp'') \<in> set evs \<longrightarrow>
        map_option image (lookup ?w' (QuarterRes, ''d.webp''))
          = Some (Some (max 1 (hw div 2), max 1 (hh div 2)))
        \<and> (\<exists>pre. evs = pre @ [Open (HalfRes, ''d.webp''), Save (QuarterRes, ''d.webp'')])"
    by blast
  have "\<not> older quarter_only_world (HalfRes, ''d.webp'') (mtime (picture 1 (9, 7)))"
    using half by (simp add: older_def picture_def)
  with sh keep half have "he = picture 2 (4, 3)" by simp
  with he have sz: "hw = 4" "hh = 3" by (simp_all add: picture_def)
  have "older quarter_only_world (QuarterRes, ''d.webp'') (mtime he)"
    using quat by (simp add: older_def)
  with sq q have "map_option image (lookup ?w' (QuarterRes, ''d.webp''))
      = Some (Some (max 1 (hw div 2), max 1 (hh div 2)))"
    by blast
  moreover have "max 1 (hw div 2) = 2" "max 1 (hh div 2) = 1"
    using sz by simp_all
  ultimately have "map_option image (lookup ?w' (QuarterRes, ''d.webp'')) = Some (Some (2, 1))"
    by (simp only:)
  moreover have "log ?w' = [Open (HalfRes, ''d.webp''), Save (QuarterRes, ''d.webp'')]"
    by code_simp
  ultimately show ?thesis using r by simp
qed





subsection \<open>Renumbering\<close>

text \<open>
  C1 as the specification states it does not hold: with the numeric files 3 and 9 in the
  root, 3 does not keep its name and 9 does not become 4. The gaps are counted from 1
  (\<^verbatim>\<open>range(1, max_val)\<close>), so 9 moves to 1 and then 3 moves to 2.
\<close>

theorem gap_scenario_as_stated_fails: "(case standardize_names_and_fill_gaps False gap_world gap_manifest of
     (cnt, w', m') \<Rightarrow>
       \<not> (path_exists w' (Root, ''3.webp'') \<and> path_exists w' (Root, ''4.webp'')
          \<and> map_of m' ''4.webp'' = Some ''b.png'')
       \<and> listdir w' Root = [''1.webp'', ''2.webp'']
       \<and> m' = [(''1.webp'', ''b.png''), (''2.webp'', ''a.png'')])"
  by code_simp

lemma names: "str 1 @ TARGET_EXT = ''1.webp''" "str (Suc 0) @ TARGET_EXT = ''1.webp''" "str 2 @ TARGET_EXT = ''2.webp''"
  "str 3 @ TARGET_EXT = ''3.webp''" "str 9 @ TARGET_EXT = ''9.webp''"
  by code_simp+

lemma split39: "split_names [''3.webp'', ''9.webp''] [] [] = ([(3, ''3.webp''), (9, ''9.webp'')], [])"
  "split_names [''9.webp'', ''3.webp''] [] [] = ([(9, ''9.webp''), (3, ''3.webp'')], [])"
  by code_simp+

lemma gaps39: "filter (\<lambda>i. i \<notin> set [3, 9]) [1..<last [3, 9]] = [1, 2, 4, 5, 6, 7, 8::nat]"
  by code_simp

lemma sorted39:
  "sort (map fst [(3::nat, ''3.webp''), (9, ''9.webp'')]) = [3, 9]"
  "sort (map fst [(9::nat, ''9.webp''), (3, ''3.webp'')]) = [3, 9]"
  by code_simp+

lemma standardize_unfold:
  assumes "filter is_webp (listdir w Root) = files"
    and "split_names files [] [] = (nm, others)"
    and "sort (map fst nm) = en"
    and "en \<noteq> []"
    and "filter (\<lambda>i. i \<notin> set en) [1..<last en] = gaps"
    and "gaps \<noteq> []"
    and "fill_gaps dry gaps en (int (length en) - 1) w m = (en1, w1, m1)"
    and "sort (remdups en1) = en2"
    and "en2 \<noteq> []"
    and "rename_others dry others (last en2 + 1) w1 m1 = (n1, w2, m2)"
  shows "standardize_names_and_fill_gaps dry w m = (n1 - 1, w2, m2)"
  unfolding standardize_names_and_fill_gaps_def using assms by (simp add: Let_def)

lemma webp12: "is_webp ''1.webp''" "is_webp ''2.webp''" by code_simp+

lemma absent_webp:
  assumes "is_webp n" "n \<notin> set (filter is_webp (listdir w Root))"
  shows "lookup w (Root, n) = None"
  using assms by (simp add: lookup_def listdir_def map_of_eq_None_iff)

text \<open>
  C1, amended. If the files of the root that end in \<^verbatim>\<open>.webp\<close> are exactly \<^verbatim>\<open>3.webp\<close> and
  \<^verbatim>\<open>9.webp\<close>, both exist in all three trees and no rename is refused, then renumbering
  returns 2; in each of the three trees the file that was \<^verbatim>\<open>9.webp\<close> is \<^verbatim>\<open>1.webp\<close>, the
  file that was \<^verbatim>\<open>3.webp\<close> is \<^verbatim>\<open>2.webp\<close>, and the names 3 and 9 are gone; the manifest
  value of \<^verbatim>\<open>9.webp\<close> is under \<^verbatim>\<open>1.webp\<close> and that of \<^verbatim>\<open>3.webp\<close> under \<^verbatim>\<open>2.webp\<close>.
\<close>

theorem gap_scenario:
  assumes files: "filter is_webp (listdir w Root) = [''3.webp'', ''9.webp'']
               \<or> filter is_webp (listdir w Root) = [''9.webp'', ''3.webp'']"
    and three: "\<forall>d. lookup w (d, ''3.webp'') = Some (f3 d)"
    and nine: "\<forall>d. lookup w (d, ''9.webp'') = Some (f9 d)"
    and allowed: "\<forall>p. \<not> denied w p"
  shows "case standardize_names_and_fill_gaps False w manifest of
     (cnt, w', manifest') \<Rightarrow>
       cnt = 2
       \<and> (\<forall>d. lookup w' (d, ''1.webp'') = Some (f9 d) \<and> lookup w' (d, ''2.webp'') = Some (f3 d)
              \<and> lookup w' (d, ''3.webp'') = None \<and> lookup w' (d, ''9.webp'') = None)
       \<and> (\<forall>v. map_of manifest ''9.webp'' = Some v \<longrightarrow> map_of manifest' ''1.webp'' = Some v)
       \<and> (\<forall>v. map_of manifest ''3.webp'' = Some v \<longrightarrow> map_of manifest' ''2.webp'' = Some v)"
proof -
  have n1: "''1.webp'' \<notin> set (filter is_webp (listdir w Root))"
    and n2: "''2.webp'' \<notin> set (filter is_webp (listdir w Root))"
    using files by (auto simp del: set_filter)
  have a1: "lookup w (Root, ''1.webp'') = None"
    by (rule absent_webp [OF webp12(1) n1])
  have a2: "lookup w (Root, ''2.webp'') = None"
    by (rule absent_webp [OF webp12(2) n2])
  define w1 where "w1 = snd (perform_rename_set False ''9.webp'' ''1.webp'' w)"
  have p1: "perform_rename_set False ''9.webp'' ''1.webp'' w = (True, w1)"
    unfolding w1_def using a1 nine allowed
    by (simp add: perform_rename_set_def path_exists_def os_rename_def)
  have l1: "lookup w1 (d, n) = (if n = ''1.webp'' then Some (f9 d) else if n = ''9.webp'' then None else lookup w (d, n))" for d n
    unfolding w1_def using a1 nine allowed
    by (cases d) (simp_all add: perform_rename_set_def path_exists_def os_rename_def)
  have d1: "denied w1 = denied w"
    unfolding w1_def using a1 nine allowed
    by (simp add: perform_rename_set_def path_exists_def os_rename_def)
  define w2 where "w2 = snd (perform_rename_set False ''3.webp'' ''2.webp'' w1)"
  have p2: "perform_rename_set False ''3.webp'' ''2.webp'' w1 = (True, w2)"
    unfolding w2_def using a2 three allowed l1 d1
    by (simp add: perform_rename_set_def path_exists_def os_rename_def)
  have l2: "lookup w2 (d, n) = (if n = ''2.webp'' then Some (f3 d) else if n = ''3.webp'' then None else lookup w1 (d, n))" for d n
    unfolding w2_def using a2 three allowed l1 d1
    by (cases d) (simp_all add: perform_rename_set_def path_exists_def os_rename_def)
  have fg: "fill_gaps False [1, 2, 4, 5, 6, 7, 8] [3, 9] (int (length [3, 9::nat]) - 1) w manifest
      = ([2, 1], w2, rekey (rekey manifest ''9.webp'' ''1.webp'') ''3.webp'' ''2.webp'')"
    using p1 p2 by (simp add: names Let_def)
  have srt: "sort (remdups [2, 1::nat]) = [1, 2]" by code_simp
  have ro: "rename_others False [] (last [1, 2::nat] + 1) w2 m' = (3, w2, m')" for m'
    by simp
  have "\<exists>nm. split_names (filter is_webp (listdir w Root)) [] [] = (nm, [])
      \<and> sort (map fst nm) = [3, 9]"
    using files
  proof
    assume a: "filter is_webp (listdir w Root) = [''3.webp'', ''9.webp'']"
    show ?thesis unfolding a
      by (rule exI, rule conjI, rule split39(1), rule sorted39(1))
  next
    assume b: "filter is_webp (listdir w Root) = [''9.webp'', ''3.webp'']"
    show ?thesis unfolding b
      by (rule exI, rule conjI, rule split39(2), rule sorted39(2))
  qed
  then obtain nm where sn: "split_names (filter is_webp (listdir w Root)) [] [] = (nm, [])"
    and en: "sort (map fst nm) = [3, 9]" by blast
  have st: "standardize_names_and_fill_gaps False w manifest
      = (3 - 1, w2, rekey (rekey manifest ''9.webp'' ''1.webp'') ''3.webp'' ''2.webp'')"
    by (rule standardize_unfold [OF refl sn en _ gaps39 _ fg srt _ ro]) simp_all
  show ?thesis
    unfolding st using l2 l1
    by (auto simp add: rekey_def update_conv' delete_conv' split: option.splits)
qed

theorem gap_scenario_witness:
  "fst (standardize_names_and_fill_gaps False gap_world gap_manifest) = 2
   \<and> lookup (fst (snd (standardize_names_and_fill_gaps False gap_world gap_manifest))) (Root, ''1.webp'')
       = Some (picture 4 (8, 6))
   \<and> map_of (snd (snd (standardize_names_and_fill_gaps False gap_world gap_manifest))) ''1.webp''
       = Some ''b.png''"
proof -
  have files: "filter is_webp (listdir gap_world Root) = [''3.webp'', ''9.webp'']
      \<or> filter is_webp (listdir gap_world Root) = [''9.webp'', ''3.webp'']"
    by code_simp
  have three: "\<forall>d. lookup gap_world (d, ''3.webp'') = Some (three_tiers (picture 1 (8, 6)) (picture 2 (4, 3)) (picture 3 (2, 1)) d)"
    by (rule allI, case_tac d) (simp_all add: gap_world_def plain_world_def lookup_def three_tiers_def)
  have nine: "\<forall>d. lookup gap_world (d, ''9.webp'') = Some (three_tiers (picture 4 (8, 6)) (picture 5 (4, 3)) (picture 6 (2, 1)) d)"
    by (rule allI, case_tac d) (simp_all add: gap_world_def plain_world_def lookup_def three_tiers_def)
  have allowed: "\<forall>p. \<not> denied gap_world p"
    by (simp add: gap_world_def plain_world_def)
  have m: "map_of gap_manifest ''9.webp'' = Some ''b.png''"
    by (simp add: gap_manifest_def)
  from gap_scenario [OF files three nine allowed, of gap_manifest] m show ?thesis
    by (simp add: split_def three_tiers_def)
qed

text \<open>
  C7 as the specification states it does not hold. After file 2 was deleted by hand, the
  rename of 3 to 2 succeeds, and \<^verbatim>\<open>manifest[dst_name] = manifest.pop(src_name)\<close> replaces
  the entry that the manifest still has under \<^verbatim>\<open>2.webp\<close>: three entries become two.
\<close>

theorem rekey_drops_entry:
  "fst (perform_rename_set False ''3.webp'' ''2.webp'' deleted_world)
   \<and> length deleted_manifest = 3
   \<and> length (rekey deleted_manifest ''3.webp'' ''2.webp'') = 2
   \<and> snd (snd (standardize_names_and_fill_gaps False deleted_world deleted_manifest))
       = [(''1.webp'', ''a.png''), (''2.webp'', ''c.png'')]"
  by code_simp

lemma length_delete:
  "distinct (map fst m) \<Longrightarrow> length (AList.delete k m) = (if k \<in> fst ` set m then length m - 1 else length m)"
proof (induction m)
  case Nil
  show ?case by simp
next
  case (Cons p m)
  obtain a b where p: "p = (a, b)" by (cases p)
  from Cons.prems have d: "distinct (map fst m)" and a: "a \<notin> fst ` set m"
    by (simp_all add: p)
  have ih: "length (AList.delete k m) = (if k \<in> fst ` set m then length m - 1 else length m)"
    using Cons.IH d by simp
  show ?case
  proof (cases "a = k")
    case True
    with a have "AList.delete k m = m" by simp
    then show ?thesis using True by (simp add: p)
  next
    case False
    show ?thesis
    proof (cases "k \<in> fst ` set m")
      case True
      then have "0 < length m" by (cases m) auto
      then have "Suc (length m - 1) = length m" by arith
      then show ?thesis using False True ih by (simp add: p)
    next
      case no: False
      then show ?thesis using False ih by (simp add: p)
    qed
  qed
qed

lemma length_update:
  "length (AList.update k v m) = (if k \<in> fst ` set m then length m else Suc (length m))"
  by (induction m) auto

lemma keys_iff: "k \<in> fst ` set m \<longleftrightarrow> map_of m k \<noteq> None"
  by (simp add: map_of_eq_None_iff)

text \<open>
  C7, amended. For a manifest with distinct keys, the rekeying preserves the number of
  entries exactly when the source name is no key, or the destination name is no key, or
  both names are the same; the keys stay distinct, the value of the source name is then
  under the destination name, and every other key keeps its value.
\<close>

theorem rekey_conserves:
  assumes "distinct (map fst manifest)"
  shows "(length (rekey manifest src_name dst_name) = length manifest
          \<longleftrightarrow> map_of manifest src_name = None \<or> map_of manifest dst_name = None \<or> src_name = dst_name)
    \<and> distinct (map fst (rekey manifest src_name dst_name))
    \<and> (\<forall>v. map_of manifest src_name = Some v \<longrightarrow> map_of (rekey manifest src_name dst_name) dst_name = Some v)
    \<and> (\<forall>k. k \<noteq> src_name \<and> k \<noteq> dst_name \<longrightarrow> map_of (rekey manifest src_name dst_name) k = map_of manifest k)"
proof (cases "map_of manifest src_name")
  case None
  then show ?thesis using assms by (simp add: rekey_def)
next
  case (Some v)
  then have src: "src_name \<in> fst ` set manifest" by (simp add: keys_iff)
  then have pos: "0 < length manifest" by (cases manifest) auto
  have r: "rekey manifest src_name dst_name = AList.update dst_name v (AList.delete src_name manifest)"
    using Some by (simp add: rekey_def)
  have d: "distinct (map fst (AList.delete src_name manifest))"
    using assms by (rule distinct_delete)
  have keys: "fst ` set (AList.delete src_name manifest) = fst ` set manifest - {src_name}"
    by (auto simp add: AList.delete_eq)
  have len: "length (rekey manifest src_name dst_name)
      = (if dst_name \<in> fst ` set manifest - {src_name} then length manifest - 1 else length manifest)"
    using src pos assms by (simp add: r length_update length_delete keys)
  have "length (rekey manifest src_name dst_name) = length manifest
      \<longleftrightarrow> map_of manifest dst_name = None \<or> src_name = dst_name"
  proof -
    from pos have "length manifest - 1 \<noteq> length manifest" by arith
    with len show ?thesis by (auto simp add: keys_iff)
  qed
  moreover have "distinct (map fst (rekey manifest src_name dst_name))"
    unfolding r using d by (rule distinct_update)
  moreover have "map_of (rekey manifest src_name dst_name) dst_name = Some v"
    by (simp add: r update_conv')
  moreover have "\<forall>k. k \<noteq> src_name \<and> k \<noteq> dst_name \<longrightarrow> map_of (rekey manifest src_name dst_name) k = map_of manifest k"
    by (simp add: r update_conv' delete_conv')
  ultimately show ?thesis using Some by simp
qed

theorem rekey_conserves_witness:
  "length (rekey gap_manifest ''9.webp'' ''4.webp'') = length gap_manifest
   \<and> map_of (rekey gap_manifest ''9.webp'' ''4.webp'') ''4.webp'' = Some ''b.png''"
proof -
  have d: "distinct (map fst gap_manifest)" by (simp add: gap_manifest_def)
  have m: "map_of gap_manifest ''9.webp'' = Some ''b.png''" "map_of gap_manifest ''4.webp'' = None"
    by (simp_all add: gap_manifest_def)
  from rekey_conserves [OF d, of "''9.webp''" "''4.webp''"] m show ?thesis by simp
qed

subsection \<open>What renumbering leaves alone\<close>

lemma webp_renames_refl: "webp_renames w w"
  by (simp add: webp_renames_def)

lemma webp_renames_trans:
  assumes "webp_renames w w1" "webp_renames w1 w2"
  shows "webp_renames w w2"
proof -
  from assms(1) obtain e1 where e1: "log w1 = log w @ e1"
    "\<forall>e\<in>set e1. \<exists>d s t. e = Rename (d, s) (d, t) \<and> is_webp s \<and> is_webp t"
    by (auto simp add: webp_renames_def)
  from assms(2) obtain e2 where e2: "log w2 = log w1 @ e2"
    "\<forall>e\<in>set e2. \<exists>d s t. e = Rename (d, s) (d, t) \<and> is_webp s \<and> is_webp t"
    by (auto simp add: webp_renames_def)
  have "log w2 = log w @ (e1 @ e2)" using e1 e2 by simp
  moreover have "\<forall>e\<in>set (e1 @ e2). \<exists>d s t. e = Rename (d, s) (d, t) \<and> is_webp s \<and> is_webp t"
    using e1 e2 by auto
  ultimately have "\<exists>evs. log w2 = log w @ evs
      \<and> (\<forall>e\<in>set evs. \<exists>d s t. e = Rename (d, s) (d, t) \<and> is_webp s \<and> is_webp t)"
    by blast
  then show ?thesis using assms by (simp add: webp_renames_def)
qed

lemma lower_ext: "lower ''.webp'' = ''.webp''"
  by code_simp

lemma is_webp_ext: "is_webp (s @ TARGET_EXT)"
  using lower_ext by (simp add: is_webp_def endswith_def lower_def TARGET_EXT_def)

lemma os_rename_frame:
  assumes "is_webp s" "is_webp t"
  shows "webp_renames w (snd (os_rename (d, s) (d, t) w))"
proof -
  have one: "\<forall>e\<in>set [Rename (d, s) (d, t)]. \<exists>d s t. e = Rename (d, s) (d, t) \<and> is_webp s \<and> is_webp t"
    using assms by simp
  have "\<exists>evs. log (snd (os_rename (d, s) (d, t) w)) = log w @ evs
      \<and> (\<forall>e\<in>set evs. \<exists>d s t. e = Rename (d, s) (d, t) \<and> is_webp s \<and> is_webp t)"
    by (rule exI [of _ "[Rename (d, s) (d, t)]"], rule conjI [OF _ one])
      (simp add: os_rename_def split: option.splits)
  moreover have "\<forall>d' n. \<not> is_webp n \<longrightarrow>
      lookup (snd (os_rename (d, s) (d, t) w)) (d', n) = lookup w (d', n)"
    using assms by (auto simp add: os_rename_def split: option.splits)
  ultimately show ?thesis by (simp add: webp_renames_def)
qed

lemma rename_in_dirs_frame:
  assumes "is_webp src_name" "is_webp dst_name"
  shows "webp_renames w (snd (rename_in_dirs dry src_name dst_name ds ok w))"
proof (induction ds arbitrary: ok w)
  case Nil
  show ?case by (simp add: webp_renames_refl)
next
  case (Cons d ds)
  show ?case
  proof (cases "path_exists w (d, src_name) \<and> \<not> dry")
    case False
    then show ?thesis using Cons.IH by auto
  next
    case True
    obtain r w1 where r: "os_rename (d, src_name) (d, dst_name) w = (r, w1)"
      by (cases "os_rename (d, src_name) (d, dst_name) w")
    have "webp_renames w w1" using os_rename_frame [OF assms, of w d] r by simp
    moreover have "webp_renames w1 (snd (rename_in_dirs dry src_name dst_name ds b w1))" for b
      by (rule Cons.IH)
    ultimately show ?thesis using True r
      by (cases r) (auto intro: webp_renames_trans)
  qed
qed

lemma perform_rename_set_frame:
  assumes "is_webp src_name" "is_webp dst_name"
  shows "webp_renames w (snd (perform_rename_set dry src_name dst_name w))"
  using rename_in_dirs_frame [OF assms]
  by (simp add: perform_rename_set_def webp_renames_refl del: rename_in_dirs.simps)

lemma fill_gaps_frame:
  "webp_renames w (fst (snd (fill_gaps dry gaps en ch w m)))"
proof (induction dry gaps en ch w m rule: fill_gaps.induct)
  case (1 dry en ch w m)
  show ?case by (simp add: webp_renames_refl)
next
  case (2 dry gap gaps en ch w m)
  show ?case
  proof (cases "ch < 0 \<or> en ! nat ch < gap")
    case True
    then show ?thesis by (auto simp add: webp_renames_refl Let_def)
  next
    case False
    let ?src = "str (en ! nat ch) @ TARGET_EXT"
    let ?dst = "str gap @ TARGET_EXT"
    obtain ok w1 where p: "perform_rename_set dry ?src ?dst w = (ok, w1)"
      by (cases "perform_rename_set dry ?src ?dst w")
    have a: "webp_renames w w1"
      using perform_rename_set_frame [OF is_webp_ext is_webp_ext, of w dry "str (en ! nat ch)" "str gap"] p
      by simp
    have b: "webp_renames w1 (fst (snd (fill_gaps dry gaps (en[nat ch := gap]) (ch - 1) w1
        (if ok then rekey m ?src ?dst else m))))"
      using False p by (intro "2.IH"[OF _ refl _ refl refl _ refl]) auto
    show ?thesis using False p webp_renames_trans [OF a b] by (simp add: Let_def)
  qed
qed


lemma rename_others_frame:
  assumes "\<forall>f\<in>set others. is_webp f"
  shows "webp_renames w (fst (snd (rename_others dry others n w m)))"
  using assms
proof (induction others arbitrary: n w m)
  case Nil
  show ?case by (simp add: webp_renames_refl)
next
  case (Cons f others)
  let ?dst = "str n @ TARGET_EXT"
  obtain ok w1 where p: "perform_rename_set dry f ?dst w = (ok, w1)"
    by (cases "perform_rename_set dry f ?dst w")
  from Cons.prems have f: "is_webp f" and rest: "\<forall>f\<in>set others. is_webp f" by simp_all
  have a: "webp_renames w w1"
    using perform_rename_set_frame [OF f is_webp_ext, of w dry "str n"] p by simp
  have b: "webp_renames w1 (fst (snd (rename_others dry others (n + 1) w1
      (if ok then rekey m f ?dst else m))))"
    by (rule Cons.IH [OF rest])
  show ?case using p webp_renames_trans [OF a b] by (simp add: Let_def)
qed

lemma split_names_others:
  "set (snd (split_names files nm others)) \<subseteq> set others \<union> set files"
proof (induction files arbitrary: nm others)
  case Nil
  show ?case by simp
next
  case (Cons f files)
  show ?case
    using Cons.IH [of nm "others @ [f]"]
      Cons.IH [of "AList.update (int_of_str (fst (splitext f))) f nm" others]
    by (auto simp add: Let_def)
qed

lemma fill_gaps_nums:
  "fst (fill_gaps dry gaps en ch w m) = fst (fill_gaps dry2 gaps en ch w2 m2)"
  by (induction gaps arbitrary: en ch w m w2 m2) (simp_all add: Let_def split_def)

lemma rename_others_count:
  "fst (rename_others dry others n w m) = n + length others"
  by (induction others arbitrary: n w m) (simp_all add: Let_def split_def)

lemma standardize_count:
  assumes "filter is_webp (listdir v Root) = filter is_webp (listdir w Root)"
  shows "fst (standardize_names_and_fill_gaps dry2 v m2) = fst (standardize_names_and_fill_gaps dry w m)"
proof -
  have eq: "fst (fill_gaps dry2 G E c v m2) = fst (fill_gaps dry G E c w m)" for G E c
    by (rule fill_gaps_nums)
  show ?thesis
    by (simp add: standardize_names_and_fill_gaps_def assms Let_def split_def rename_others_count eq)
qed

lemma standardize_frame:
  "webp_renames w (fst (snd (standardize_names_and_fill_gaps dry w m)))"
proof -
  let ?files = "filter is_webp (listdir w Root)"
  have others: "\<forall>f\<in>set (snd (split_names ?files [] [])). is_webp f"
    using split_names_others [of ?files "[]" "[]"] by auto
  have a: "webp_renames w (fst (snd (fill_gaps dry G E c w m)))" for G E c
    by (rule fill_gaps_frame)
  have b: "webp_renames w1 (fst (snd (rename_others dry (snd (split_names ?files [] [])) n w1 m1)))"
    for n w1 m1
    by (rule rename_others_frame [OF others])
  show ?thesis
    unfolding standardize_names_and_fill_gaps_def Let_def split_def
    by (auto intro: webp_renames_trans [OF a b] b)
qed

text \<open>
  C9. Renumbering considers only the names that end, in any case, in \<^verbatim>\<open>.webp\<close>. In every
  run, a file of any other name (a source such as \<^verbatim>\<open>7.png\<close>, \<^verbatim>\<open>config.json\<close>,
  \<^verbatim>\<open>manifest.json\<close>) is after the run what it was before, in each of the three trees;
  every call the run adds to the log is a rename, within one directory, from a name that
  ends in \<^verbatim>\<open>.webp\<close> to a name that ends in \<^verbatim>\<open>.webp\<close>; and the count that is returned is
  the same for every world whose root has the same \<^verbatim>\<open>.webp\<close> names in the same order,
  whatever other files it holds: no other name is counted or given a number.
\<close>

theorem renumbering_touches_webp_only:
  assumes "standardize_names_and_fill_gaps DRY_RUN w manifest = (cnt, w', manifest')"
  shows "(\<forall>d n. \<not> is_webp n \<longrightarrow> lookup w' (d, n) = lookup w (d, n))
    \<and> (\<exists>evs. log w' = log w @ evs
          \<and> (\<forall>e\<in>set evs. \<exists>d s t. e = Rename (d, s) (d, t) \<and> is_webp s \<and> is_webp t))
    \<and> (\<forall>v dry2 m2. filter is_webp (listdir v Root) = filter is_webp (listdir w Root)
          \<longrightarrow> fst (standardize_names_and_fill_gaps dry2 v m2) = cnt)"
proof -
  have "webp_renames w w'"
    using standardize_frame [of w DRY_RUN manifest] assms by simp
  moreover have "fst (standardize_names_and_fill_gaps dry2 v m2) = cnt"
    if "filter is_webp (listdir v Root) = filter is_webp (listdir w Root)" for v dry2 m2
    using standardize_count [OF that, of dry2 m2 DRY_RUN manifest] assms by simp
  ultimately show ?thesis by (simp add: webp_renames_def)
qed

theorem renumbering_touches_webp_only_witness:
  "lookup (fst (snd (standardize_names_and_fill_gaps False mixed_world []))) (Root, ''7.png'')
     = Some (picture 1 (8, 6))
   \<and> lookup (fst (snd (standardize_names_and_fill_gaps False mixed_world []))) (Root, ''config.json'')
     = Some \<lparr>mtime = 2, image = None\<rparr>
   \<and> fst (standardize_names_and_fill_gaps False mixed_world []) = 2"
proof -
  let ?r = "standardize_names_and_fill_gaps False mixed_world []"
  have res: "?r = (fst ?r, fst (snd ?r), snd (snd ?r))" by simp
  have no: "\<not> is_webp ''7.png''" "\<not> is_webp ''config.json''" by code_simp+
  have before: "lookup mixed_world (Root, ''7.png'') = Some (picture 1 (8, 6))"
    "lookup mixed_world (Root, ''config.json'') = Some \<lparr>mtime = 2, image = None\<rparr>"
    by (simp_all add: mixed_world_def plain_world_def lookup_def)
  have cnt: "fst ?r = 2" by code_simp
  from renumbering_touches_webp_only [OF res] no before cnt show ?thesis by simp
qed

subsection \<open>The whole pipeline\<close>

text \<open>
  C3 as the specification states it does not hold for every root. With the two sources
  \<^verbatim>\<open>a.jpg\<close> and \<^verbatim>\<open>a.png\<close> the first run records one of them under \<^verbatim>\<open>a.webp\<close> (the first
  result wins); the other is no value of the manifest, so the second run converts it
  again, writes all three tiers, renames them to slot 2 and adds an entry.
\<close>

theorem second_run_writes_again:
  "fst (first_run two_stems_world) = Inr (1, [(''1.webp'', ''a.jpg'')])
   \<and> fst (second_run two_stems_world) = Inr (2, [(''1.webp'', ''a.jpg''), (''2.webp'', ''a.png'')])
   \<and> new_events two_stems_world
       = [Open (Root, ''a.png''), Save (Root, ''a.webp''),
          Open (Root, ''a.webp''), Save (HalfRes, ''a.webp''),
          Open (HalfRes, ''a.webp''), Save (QuarterRes, ''a.webp''),
          Rename (Root, ''a.webp'') (Root, ''2.webp''),
          Rename (HalfRes, ''a.webp'') (HalfRes, ''2.webp''),
          Rename (QuarterRes, ''a.webp'') (QuarterRes, ''2.webp''),
          Dump (Root, ''config.json'') (ConfigData 2 111),
          Dump (Root, ''manifest.json'')
            (ManifestData [(''1.webp'', ''a.jpg''), (''2.webp'', ''a.png'')])]"
  by code_simp

lemma fresh_task_is_idle:
  assumes "fresh_asset w manifest f"
  shows "convert_and_resize ((Root, f), f, ensure_dirs_paths, dry) w = (Some (f, f), w)"
proof -
  from assms obtain e h q where l: "lookup w (Root, f) = Some e" "lookup w (HalfRes, f) = Some h"
    "lookup w (QuarterRes, f) = Some q" and t: "mtime e \<le> mtime h" "mtime h \<le> mtime q"
    and n: "final_name_of f = f"
    by (auto simp add: fresh_asset_def split: option.splits)
  have s1: "step1_full (Root, f) (Root, f) w = (Inr (), w)"
    using l by (simp add: step1_full_def needs_process_of_def getmtime_def path_exists_def)
  have s2: "step2_half (Root, f) (HalfRes, f) w = (Inr (), w)"
    using l t
    by (simp add: step2_half_def half_needs_update_of_def getmtime_def path_exists_def)
  have s3: "step3_quarter (HalfRes, f) (QuarterRes, f) w = (Inr (), w)"
    using l t
    by (simp add: step3_quarter_def quat_needs_update_of_def getmtime_def path_exists_def)
  show ?thesis
    using s1 s2 s3 n
    by (simp add: convert_and_resize_def convert_body_def ensure_dirs_paths_def Let_def)
qed

lemma record_known: "map_of manifest f \<noteq> None \<Longrightarrow> record_result manifest f f = manifest"
  by (auto simp add: record_result_def)

lemma fresh_tasks_are_idle:
  assumes "list_all (fresh_asset w manifest) fs"
  shows "run_tasks (map (\<lambda>f. ((Root, f), f, ensure_dirs_paths, dry)) fs) w manifest = (w, manifest)"
  using assms
proof (induction fs)
  case Nil
  show ?case by simp
next
  case (Cons f fs)
  from Cons.prems have f: "fresh_asset w manifest f" and rest: "list_all (fresh_asset w manifest) fs"
    by simp_all
  from f have k: "map_of manifest f \<noteq> None" by (simp add: fresh_asset_def)
  show ?case
    using fresh_task_is_idle [OF f, of dry] record_known [OF k] Cons.IH [OF rest] by simp
qed

lemma split_names_digits:
  assumes "list_all (\<lambda>f. isdigit (fst (splitext f))) files"
  shows "snd (split_names files nm others) = others
    \<and> set (map fst (fst (split_names files nm others))) = set (map fst nm) \<union> set (numbers_of files)"
  using assms
proof (induction files arbitrary: nm)
  case Nil
  show ?case by (simp add: numbers_of_def)
next
  case (Cons f files)
  from Cons.prems have d: "isdigit (fst (splitext f))"
    and rest: "list_all (\<lambda>f. isdigit (fst (splitext f))) files" by simp_all
  show ?case
    using Cons.IH [OF rest, of "AList.update (int_of_str (fst (splitext f))) f nm"] d
    by (auto simp add: Let_def numbers_of_def dom_update)
qed

lemma le_foldr_max: "x \<in> set xs \<Longrightarrow> x \<le> foldr max xs (0::nat)"
  by (induction xs) auto

lemma dense_is_idle:
  assumes "dense (filter is_webp (listdir w Root))"
  shows "snd (standardize_names_and_fill_gaps dry w manifest) = (w, manifest)"
proof -
  let ?files = "filter is_webp (listdir w Root)"
  obtain nm others where sn: "split_names ?files [] [] = (nm, others)"
    by (cases "split_names ?files [] []")
  from assms have dg: "list_all (\<lambda>f. isdigit (fst (splitext f))) ?files"
    and all: "list_all (\<lambda>i. i \<in> set (numbers_of ?files)) [1..<foldr max (numbers_of ?files) 0]"
    by (simp_all add: dense_def)
  from split_names_digits [OF dg, of "[]" "[]"] sn
  have others: "others = []" and keys: "set (map fst nm) = set (numbers_of ?files)" by simp_all
  let ?en = "sort (map fst nm)"
  have gaps: "filter (\<lambda>i. i \<notin> set ?en) [1..<last ?en] = []" if ne: "?en \<noteq> []"
  proof -
    have "last ?en \<in> set ?en" using ne by (rule last_in_set)
    then have "last ?en \<le> foldr max (numbers_of ?files) 0"
      using keys by (intro le_foldr_max) simp
    then have "\<forall>i\<in>set [1..<last ?en]. i \<in> set (numbers_of ?files)"
      using all by (auto simp add: list_all_iff)
    then show ?thesis using keys by (auto simp add: filter_empty_conv)
  qed
  show ?thesis
    using gaps others by (simp add: standardize_names_and_fill_gaps_def Let_def sn)
qed

lemma settled_pass:
  assumes "settled w manifest"
  shows "\<exists>cnt. standardize_names_and_fill_gaps DRY_RUN w manifest = (cnt, w, manifest)
    \<and> process_directory DRY_RUN w manifest =
     (case update_config_and_manifest DRY_RUN cnt manifest w of
        (Inl e, w3) \<Rightarrow> (Inl e, w3)
      | (Inr u, w3) \<Rightarrow> (Inr (cnt, manifest), w3))"
proof -
  from assms have p: "list_all (fresh_asset w manifest) (pending_files_of w manifest)"
    and d: "dense (filter is_webp (listdir w Root))"
    by (simp_all add: settled_def)
  have t: "run_tasks (map (\<lambda>f. ((Root, f), f, ensure_dirs_paths, DRY_RUN))
      (filter (\<lambda>f. f \<notin> set (map snd manifest)) (root_files_of w))) w manifest = (w, manifest)"
    using fresh_tasks_are_idle [OF p, of DRY_RUN] by (simp add: pending_files_of_def)
  obtain cnt where s: "standardize_names_and_fill_gaps DRY_RUN w manifest = (cnt, w, manifest)"
    using dense_is_idle [OF d, of DRY_RUN manifest]
    by (cases "standardize_names_and_fill_gaps DRY_RUN w manifest") simp
  show ?thesis
    using t s by (simp add: process_directory_def Let_def)
qed

text \<open>
  C4. One new source \<^verbatim>\<open>a.WEBP\<close> in an empty root: its target \<^verbatim>\<open>a.webp\<close> is not numeric
  and there is no failure, but the run leaves two numbered files (next to the two JSON
  files it writes) and returns 2. The worker
  compares the paths as they are, so it saves \<^verbatim>\<open>a.webp\<close> next to the source; renumbering
  tests the extension in lower case, so it takes the source for an asset as well.
\<close>

theorem upper_case_source_takes_two_slots:
  "root_files_of upper_ext_world = [''a.WEBP'']
   \<and> final_name_of ''a.WEBP'' = ''a.webp''
   \<and> \<not> isdigit (fst (splitext ''a.webp''))
   \<and> fst (first_run upper_ext_world) = Inr (2, [(''2.webp'', ''a.WEBP'')])
   \<and> listdir (snd (first_run upper_ext_world)) Root
       = [''1.webp'', ''2.webp'', ''config.json'', ''manifest.json'']
   \<and> filter is_webp (listdir (snd (first_run upper_ext_world)) Root) = [''1.webp'', ''2.webp'']"
  by code_simp

end
